theory Spec2Isabelle
  imports Main "HOL-Library.Word" "HOL-Library.Char_ord" "HOL-Library.List_Lexorder"
begin

section \<open>JavaScript values used by the dashboard hook\<close>

text \<open>
  The hook \<^verbatim>\<open>useCanteenWagmi\<close> (packages/nextjs/hooks/canteen-example/useCanteenWagmi.tsx)
  is TypeScript. Its numbers are IEEE doubles, its contract counts are \<^verbatim>\<open>bigint\<close>
  values decoded from a \<^verbatim>\<open>uint256\<close>, its arrays have at most \<open>2^32 - 1\<close>
  elements, and the heap they live in is finite. Doubles that hold a non-negative
  integer are modelled by that integer (a \<open>nat\<close>), with the rounding of every operation
  written out.
\<close>

type_synonym uint256 = "256 word"

text \<open>The number of binary digits of a natural number.\<close>

function bitLength :: "nat \<Rightarrow> nat" where
  "bitLength n = (if n = 0 then 0 else Suc (bitLength (n div 2)))"
  by pat_completeness auto
termination
  by (relation "measure id") auto

declare bitLength.simps [simp del]

text \<open>
  \<^verbatim>\<open>Number(x)\<close> for a non-negative integer \<open>x\<close>: the double nearest to \<open>x\<close>, ties to
  the even significand (53 significant bits). The result is again an integer.
\<close>

definition Number :: "nat \<Rightarrow> nat" where
  "Number n =
     (let e = bitLength n in
      if e \<le> 53 then n
      else
        let sh = e - 53; q = n div 2 ^ sh; r = n mod 2 ^ sh; half = 2 ^ (sh - 1)
        in (if half < r \<or> (r = half \<and> odd q) then q + 1 else q) * 2 ^ sh)"

text \<open>\<^verbatim>\<open>i++\<close> and \<^verbatim>\<open>prev + 1\<close> on a double: the exact sum, rounded.\<close>

definition js_succ :: "nat \<Rightarrow> nat" where
  "js_succ i = Number (i + 1)"

text \<open>The decimal digits of an integer, as a template literal prints a number below \<open>10^21\<close>.\<close>

definition digitChar :: "nat \<Rightarrow> char" where
  "digitChar d = ''0123456789'' ! d"

function showNat :: "nat \<Rightarrow> string" where
  "showNat n = (if n < 10 then [digitChar n] else showNat (n div 10) @ [digitChar (n mod 10)])"
  by pat_completeness auto
termination
  by (relation "measure id") auto

declare showNat.simps [simp del]

text \<open>
  A thrown value, as \<^verbatim>\<open>catch (error: any)\<close> receives it. \<open>Nullish\<close> is \<^verbatim>\<open>null\<close> or
  \<^verbatim>\<open>undefined\<close>: reading a property of it throws a TypeError. \<open>Error m\<close> is any other
  value, with the string its \<^verbatim>\<open>message\<close> property holds, if it holds one.
\<close>

datatype js_error = Error "string option" | Nullish

text \<open>
  \<^verbatim>\<open>m || fallback\<close> for the message \<open>m\<close> read from a thrown value: a missing or empty
  message is falsy.
\<close>

definition messageOr :: "string option \<Rightarrow> string \<Rightarrow> string" where
  "messageOr m fallback =
     (case m of None \<Rightarrow> fallback | Some t \<Rightarrow> if t = [] then fallback else t)"

text \<open>
  A value of type \<^verbatim>\<open>number\<close> as \<^verbatim>\<open>BigInt(...)\<close> sees it: an integer, or a value that is
  not one (NaN, an infinity, a fraction), for which \<^verbatim>\<open>BigInt\<close> throws a RangeError
  (an Error object; its message is the engine's).
\<close>

datatype js_number = Integral int | NonIntegral

definition BigInt :: "string \<Rightarrow> js_number \<Rightarrow> js_error + int" where
  "BigInt rangeMessage x =
     (case x of Integral i \<Rightarrow> Inr i | NonIntegral \<Rightarrow> Inl (Error (Some rangeMessage)))"

text \<open>
  \<^verbatim>\<open>Array.prototype.push\<close>. The engine first needs room for the new element: when the
  heap has none, the page runs out of memory and is torn down, and no \<^verbatim>\<open>catch\<close> or
  \<^verbatim>\<open>finally\<close> runs. Otherwise an array holds at most \<open>2^32 - 1\<close> elements: a push onto a
  full array throws a RangeError and leaves the elements and the length as they were.
  The room of the heap is counted in elements of the array being built.
\<close>

definition maxArrayLength :: nat where
  "maxArrayLength = 4294967295"

datatype 'a pushed = Pushed "'a list" | PushThrows js_error | OutOfMemory

definition js_push :: "nat \<Rightarrow> string \<Rightarrow> 'a list \<Rightarrow> 'a \<Rightarrow> 'a pushed" where
  "js_push heapRoom rangeMessage xs x =
     (if heapRoom \<le> length xs then OutOfMemory
      else if length xs < maxArrayLength then Pushed (xs @ [x])
      else PushThrows (Error (Some rangeMessage)))"

text \<open>
  How an asynchronous function that builds a list ends, when it ends: it returns, or the
  page has run out of memory under it.
\<close>

datatype 'a run = Returned 'a | HeapExhausted


section \<open>The hook \<^verbatim>\<open>useCanteenWagmi\<close>\<close>

subsection \<open>State and environment\<close>

text \<open>The deployed contract's info, as \<^verbatim>\<open>useDeployedContractInfo\<close> resolves it.\<close>

record contract_info =
  address :: string
  abi :: string

datatype call_arg = ArgString string | ArgBigInt int | ArgNumber nat

text \<open>One call that reaches the contract: a write through wagmi or a read through ethers.\<close>

record contract_call =
  callAddress :: string
  callAbi :: string
  functionName :: string
  callArgs :: "call_arg list"

record image_info =
  name :: string
  replicas :: nat
  deployed :: nat
  active :: bool

text \<open>
  The five \<^verbatim>\<open>useState\<close> cells of the hook, followed by what the hook did to the outside:
  the calls it sent to the contract and the number of \<^verbatim>\<open>refetchImagesCount()\<close> calls.
\<close>

record hook_state =
  message :: string
  isProcessing :: bool
  members :: "string list"
  images :: "image_info list"
  refreshTrigger :: nat
  contractCalls :: "contract_call list"
  refetchImagesCountCalls :: nat

text \<open>The reads of the ethers \<^verbatim>\<open>Contract\<close> that \<^verbatim>\<open>fetchImages\<close> builds; each may reject.\<close>

record ethers_provider =
  readImages :: "nat \<Rightarrow> js_error + string"
  readImageDetails :: "string \<Rightarrow> js_error + (uint256 \<times> uint256 \<times> bool)"

text \<open>
  What the other hooks hand to \<^verbatim>\<open>useCanteenWagmi\<close> during one render: the contract info
  (or \<^verbatim>\<open>undefined\<close>), wagmi's write function with its outcome for every request (the
  transaction hash, or the rejection), the two counts read from the contract
  (\<^verbatim>\<open>bigint | undefined\<close>) and the read-only provider. The rest is the engine: the
  number of elements its heap has room for in one list, and the messages of the errors it
  throws itself (the RangeErrors of \<^verbatim>\<open>BigInt\<close> and of \<^verbatim>\<open>push\<close>, and the TypeError of
  reading a property of \<^verbatim>\<open>null\<close> or \<^verbatim>\<open>undefined\<close>).
\<close>

record hook_env =
  canteenContract :: "contract_info option"
  writeContractAsync :: "(contract_call \<Rightarrow> js_error + string) option"
  membersCount :: "uint256 option"
  imagesCount :: "uint256 option"
  ethersReadonlyProvider :: "ethers_provider option"
  heapRoom :: nat
  notIntegerMessage :: string
  arrayLengthMessage :: string
  nullishReadMessage :: string

subsection \<open>Exceptions\<close>

text \<open>
  A statement run on a state either completes or throws; either way the state it
  reached stays. \<open>try_catch_finally\<close> is the \<^verbatim>\<open>try { } catch { } finally { }\<close> of the
  source: the handler runs on what the body threw, the finaliser runs last in both
  cases, and what the handler throws is what the caller sees.
\<close>

type_synonym 's stmt = "'s \<Rightarrow> js_error option \<times> 's"

definition try_catch_finally ::
  "'s stmt \<Rightarrow> (js_error \<Rightarrow> 's stmt) \<Rightarrow> ('s \<Rightarrow> 's) \<Rightarrow> 's stmt" where
  "try_catch_finally body handler finaliser s =
     (case body s of
        (None, s1) \<Rightarrow> (None, finaliser s1)
      | (Some e, s1) \<Rightarrow> (case handler e s1 of (r, s2) \<Rightarrow> (r, finaliser s2)))"

text \<open>
  The \<^verbatim>\<open>catch\<close> block of \<^verbatim>\<open>addImage\<close> and \<^verbatim>\<open>removeImage\<close>: the message is set to
  "Error: " followed by \<^verbatim>\<open>error.message || fallback\<close>. Reading \<^verbatim>\<open>error.message\<close> of
  \<^verbatim>\<open>null\<close> or \<^verbatim>\<open>undefined\<close> throws a TypeError out of the block, before the message is
  set.
\<close>

definition catchBlock :: "string \<Rightarrow> string \<Rightarrow> js_error \<Rightarrow> hook_state stmt" where
  "catchBlock typeErrorMessage fallback e s =
     (case e of
        Nullish \<Rightarrow> (Some (Error (Some typeErrorMessage)), s)
      | Error m \<Rightarrow> (None, s\<lparr>message := ''Error: '' @ messageOr m fallback\<rparr>))"

subsection \<open>addImage and removeImage\<close>

text \<open>The two requests handed to \<^verbatim>\<open>writeContractAsync\<close>.\<close>

definition addImageCall :: "contract_info \<Rightarrow> string \<Rightarrow> int \<Rightarrow> contract_call" where
  "addImageCall c imageName n =
     \<lparr>callAddress = address c, callAbi = abi c, functionName = ''addImage'',
      callArgs = [ArgString imageName, ArgBigInt n]\<rparr>"

definition removeImageCall :: "contract_info \<Rightarrow> string \<Rightarrow> contract_call" where
  "removeImageCall c imageName =
     \<lparr>callAddress = address c, callAbi = abi c, functionName = ''removeImage'',
      callArgs = [ArgString imageName]\<rparr>"

text \<open>
  The body of the \<^verbatim>\<open>try\<close> in \<^verbatim>\<open>addImage\<close>: the arguments are built first
  (\<^verbatim>\<open>BigInt(numReplicas)\<close> may throw), then the write is awaited; on success the
  message, the refresh trigger and the refetch follow.
\<close>

definition addImageTry ::
  "hook_env \<Rightarrow> contract_info \<Rightarrow> (contract_call \<Rightarrow> js_error + string) \<Rightarrow>
   string \<Rightarrow> js_number \<Rightarrow> hook_state stmt" where
  "addImageTry env c w imageName numReplicas s =
     (case BigInt (notIntegerMessage env) numReplicas of
        Inl e \<Rightarrow> (Some e, s)
      | Inr n \<Rightarrow>
          (let call = addImageCall c imageName n;
               s1 = s\<lparr>contractCalls := contractCalls s @ [call]\<rparr>
           in case w call of
                Inl e \<Rightarrow> (Some e, s1)
              | Inr tx \<Rightarrow>
                  (None, s1\<lparr>message := ''Image added! Tx: '' @ tx,
                             refreshTrigger := js_succ (refreshTrigger s1),
                             refetchImagesCountCalls := Suc (refetchImagesCountCalls s1)\<rparr>)))"

definition addImage :: "hook_env \<Rightarrow> string \<Rightarrow> js_number \<Rightarrow> hook_state stmt" where
  "addImage env imageName numReplicas s =
     (case (canteenContract env, writeContractAsync env) of
        (Some c, Some w) \<Rightarrow>
          try_catch_finally
            (addImageTry env c w imageName numReplicas)
            (catchBlock (nullishReadMessage env) ''Failed to add image'')
            (\<lambda>s'. s'\<lparr>isProcessing := False\<rparr>)
            (s\<lparr>isProcessing := True, message := ''Adding image...''\<rparr>)
      | _ \<Rightarrow> (None, s\<lparr>message := ''Contract not available''\<rparr>))"

definition removeImageTry ::
  "contract_info \<Rightarrow> (contract_call \<Rightarrow> js_error + string) \<Rightarrow> string \<Rightarrow> hook_state stmt" where
  "removeImageTry c w imageName s =
     (let call = removeImageCall c imageName;
          s1 = s\<lparr>contractCalls := contractCalls s @ [call]\<rparr>
      in case w call of
           Inl e \<Rightarrow> (Some e, s1)
         | Inr tx \<Rightarrow>
             (None, s1\<lparr>message := ''Image removed! Tx: '' @ tx,
                        refreshTrigger := js_succ (refreshTrigger s1),
                        refetchImagesCountCalls := Suc (refetchImagesCountCalls s1)\<rparr>))"

definition removeImage :: "hook_env \<Rightarrow> string \<Rightarrow> hook_state stmt" where
  "removeImage env imageName s =
     (case (canteenContract env, writeContractAsync env) of
        (Some c, Some w) \<Rightarrow>
          try_catch_finally
            (removeImageTry c w imageName)
            (catchBlock (nullishReadMessage env) ''Failed to remove image'')
            (\<lambda>s'. s'\<lparr>isProcessing := False\<rparr>)
            (s\<lparr>isProcessing := True, message := ''Removing image...''\<rparr>)
      | _ \<Rightarrow> (None, s\<lparr>message := ''Contract not available''\<rparr>))"

subsection \<open>The counts the hook returns\<close>

text \<open>
  \<^verbatim>\<open>membersCount ? Number(membersCount) : 0\<close>: \<^verbatim>\<open>undefined\<close> and \<^verbatim>\<open>0n\<close> are falsy.
\<close>

definition countOrZero :: "uint256 option \<Rightarrow> nat" where
  "countOrZero v = (case v of None \<Rightarrow> 0 | Some c \<Rightarrow> if c \<noteq> 0 then Number (unat c) else 0)"

definition returnedMembersCount :: "hook_env \<Rightarrow> nat" where
  "returnedMembersCount env = countOrZero (membersCount env)"

definition returnedImagesCount :: "hook_env \<Rightarrow> nat" where
  "returnedImagesCount env = countOrZero (imagesCount env)"

subsection \<open>fetchMembers and fetchImages\<close>

text \<open>
  The loop of \<^verbatim>\<open>fetchMembers\<close>. The counter is a double, so \<^verbatim>\<open>i++\<close> rounds; the
  \<^verbatim>\<open>try\<close> around the push catches the RangeError of a full array and goes on; running
  out of memory ends the run. The loop need not end, so not ending is the value \<open>None\<close>.
\<close>

partial_function (option) fetchMembersLoop ::
  "nat \<Rightarrow> string \<Rightarrow> nat \<Rightarrow> nat \<Rightarrow> string list \<Rightarrow> string list run option" where
  "fetchMembersLoop room rangeMessage i count membersList =
     (if i < count then
        (case js_push room rangeMessage membersList (''Member '' @ showNat i) of
           OutOfMemory \<Rightarrow> Some HeapExhausted
         | Pushed l \<Rightarrow> fetchMembersLoop room rangeMessage (js_succ i) count l
         | PushThrows e \<Rightarrow> fetchMembersLoop room rangeMessage (js_succ i) count membersList)
      else Some (Returned membersList))"

text \<open>
  \<^verbatim>\<open>fetchMembers\<close>: \<^verbatim>\<open>setMembers\<close> is called once, after the loop, so a run that does not
  return leaves no list behind.
\<close>

definition fetchMembers :: "hook_env \<Rightarrow> hook_state \<Rightarrow> hook_state run option" where
  "fetchMembers env s =
     (case (canteenContract env, membersCount env) of
        (Some c, Some mc) \<Rightarrow>
          if mc = 0 then Some (Returned s)
          else (case fetchMembersLoop (heapRoom env) (arrayLengthMessage env) 0
                       (Number (unat mc)) [] of
                  None \<Rightarrow> None
                | Some HeapExhausted \<Rightarrow> Some HeapExhausted
                | Some (Returned membersList) \<Rightarrow> Some (Returned (s\<lparr>members := membersList\<rparr>)))
      | _ \<Rightarrow> Some (Returned s))"

text \<open>
  One round of the loop of \<^verbatim>\<open>fetchImages\<close>: two reads of the contract, then the push;
  whatever throws is caught and the round adds nothing.
\<close>

definition fetchImageAt ::
  "nat \<Rightarrow> string \<Rightarrow> ethers_provider \<Rightarrow> contract_info \<Rightarrow> nat \<Rightarrow>
   image_info list \<times> contract_call list \<Rightarrow> (image_info list \<times> contract_call list) run" where
  "fetchImageAt room rangeMessage p c i st =
     (case st of (imagesList, calls) \<Rightarrow>
        (let calls1 = calls @ [\<lparr>callAddress = address c, callAbi = abi c,
                                 functionName = ''images'', callArgs = [ArgNumber i]\<rparr>]
         in case readImages p i of
              Inl e \<Rightarrow> Returned (imagesList, calls1)
            | Inr imageName \<Rightarrow>
                (let calls2 = calls1 @ [\<lparr>callAddress = address c, callAbi = abi c,
                                          functionName = ''getImageDetails'',
                                          callArgs = [ArgString imageName]\<rparr>]
                 in case readImageDetails p imageName of
                      Inl e \<Rightarrow> Returned (imagesList, calls2)
                    | Inr (r, d, a) \<Rightarrow>
                        (case js_push room rangeMessage imagesList
                                \<lparr>name = imageName, replicas = Number (unat r),
                                 deployed = Number (unat d), active = a\<rparr> of
                           OutOfMemory \<Rightarrow> HeapExhausted
                         | PushThrows e \<Rightarrow> Returned (imagesList, calls2)
                         | Pushed l \<Rightarrow> Returned (l, calls2)))))"

partial_function (option) fetchImagesLoop ::
  "nat \<Rightarrow> string \<Rightarrow> ethers_provider \<Rightarrow> contract_info \<Rightarrow> nat \<Rightarrow> nat \<Rightarrow>
   image_info list \<times> contract_call list \<Rightarrow>
   (image_info list \<times> contract_call list) run option" where
  "fetchImagesLoop room rangeMessage p c i count st =
     (if i < count then
        (case fetchImageAt room rangeMessage p c i st of
           HeapExhausted \<Rightarrow> Some HeapExhausted
         | Returned st' \<Rightarrow> fetchImagesLoop room rangeMessage p c (js_succ i) count st')
      else Some (Returned st))"

definition fetchImages :: "hook_env \<Rightarrow> hook_state \<Rightarrow> hook_state run option" where
  "fetchImages env s =
     (case (canteenContract env, imagesCount env, ethersReadonlyProvider env) of
        (Some c, Some ic, Some p) \<Rightarrow>
          if ic = 0 then Some (Returned s)
          else (case fetchImagesLoop (heapRoom env) (arrayLengthMessage env) p c 0
                       (Number (unat ic)) ([], contractCalls s) of
                  None \<Rightarrow> None
                | Some HeapExhausted \<Rightarrow> Some HeapExhausted
                | Some (Returned (imagesList, calls)) \<Rightarrow>
                    Some (Returned (s\<lparr>images := imagesList, contractCalls := calls\<rparr>)))
      | _ \<Rightarrow> Some (Returned s))"

section \<open>The encrypted scheduler\<close>

text \<open>
  The orchestration core (membership, scheduler, ledger sync) is described by the
  specification and the README; its code is not among the dashboard sources. The
  scheduler is therefore written down from the specification's section 4.2. The
  encrypted arithmetic is an opaque capability there (encrypt, compare and aggregate
  homomorphically, decrypt with authority), so the functions below compute on the
  plaintexts that the ciphertexts stand for.
\<close>

text \<open>
  Modelled from the spec: the Resource Telemetry Record (owning node id, and the
  plaintext of its ciphertext: capacity, current load, priority), which the missing
  telemetry code produces. Capacity counts replica slots; load is counted in the same
  unit. Only fresh records reach the scheduler, so the timestamp is left out.
\<close>

record telemetry =
  nodeId :: string
  capacity :: nat
  load :: nat
  priority :: nat

text \<open>
  Modelled from the spec: the Deployment Request (image reference and requested replica
  count; the optional constraints are absent).
\<close>

record deployment_request =
  requestId :: nat
  image :: string
  requestedReplicas :: nat

text \<open>
  Modelled from the spec: the result of \<open>evaluateSchedule\<close>, the missing scheduler's
  entry point: a Deployment Assignment (node id and replica count, one pair per node
  record, in the order of the records) or the terminal value UNSATISFIABLE.
\<close>

datatype schedule_result = Assignment "(string \<times> nat) list" | UNSATISFIABLE

text \<open>
  Modelled from the spec: the working state of the missing packing loop, a node's record
  with the replicas assigned to it so far.
\<close>

type_synonym slot = "telemetry \<times> nat"

text \<open>
  Modelled from the spec: the "running load" that the missing packing loop updates, the
  node's load plus one unit for every replica assigned to it.
\<close>

definition runningLoad :: "slot \<Rightarrow> nat" where
  "runningLoad sl = load (fst sl) + snd sl"

text \<open>
  Modelled from the spec: "not yet at replica-per-node limits" in the missing packing
  loop. The limit of a node is its advertised capacity, counted in replica slots.
\<close>

definition belowLimit :: "slot \<Rightarrow> bool" where
  "belowLimit sl \<longleftrightarrow> snd sl < capacity (fst sl)"

text \<open>
  Modelled from the spec: the comparison of the missing scheduler, "minimum (load /
  capacity)" with ties broken by the lexical order of the node ids. The quotients are
  compared by cross-multiplication, as a comparison under encryption has no division.
\<close>

definition lessLoaded :: "slot \<Rightarrow> slot \<Rightarrow> bool" where
  "lessLoaded a b \<longleftrightarrow>
     runningLoad a * capacity (fst b) < runningLoad b * capacity (fst a) \<or>
     (runningLoad a * capacity (fst b) = runningLoad b * capacity (fst a) \<and>
      nodeId (fst a) < nodeId (fst b))"

text \<open>
  Modelled from the spec: one selection of the missing scheduler, the position of the
  node with minimum load ratio among those not yet at their limit, or \<open>None\<close> when no
  node satisfies the constraints.
\<close>

definition selectNode :: "slot list \<Rightarrow> nat option" where
  "selectNode slots =
     (case filter (\<lambda>i. belowLimit (slots ! i)) [0..<length slots] of
        [] \<Rightarrow> None
      | i # rest \<Rightarrow>
          Some (foldl (\<lambda>best j. if lessLoaded (slots ! j) (slots ! best) then j else best)
                  i rest))"

text \<open>
  Modelled from the spec: "assign one replica, update that node's running load" in the
  missing packing loop.
\<close>

definition assignOne :: "slot list \<Rightarrow> nat \<Rightarrow> slot list" where
  "assignOne slots i = slots[i := (fst (slots ! i), Suc (snd (slots ! i)))]"

text \<open>
  Modelled from the spec: the missing packing loop, "assign one replica, update that
  node's running load, repeat until all replicas are placed or no node satisfies
  constraints". \<open>None\<close> is the second exit with replicas left over.
\<close>

fun place :: "nat \<Rightarrow> slot list \<Rightarrow> slot list option" where
  "place 0 slots = Some slots"
| "place (Suc r) slots =
     (case selectNode slots of
        None \<Rightarrow> None
      | Some i \<Rightarrow> place r (assignOne slots i))"

text \<open>
  Modelled from the spec: \<open>evaluateSchedule(request, ciphertexts[])\<close> of the missing
  scheduler. A loop that stops with replicas left over gives UNSATISFIABLE, never the
  partial assignment it had reached.
\<close>

definition evaluateSchedule :: "deployment_request \<Rightarrow> telemetry list \<Rightarrow> schedule_result" where
  "evaluateSchedule request records =
     (case place (requestedReplicas request) (map (\<lambda>n. (n, 0)) records) of
        None \<Rightarrow> UNSATISFIABLE
      | Some slots \<Rightarrow> Assignment (map (\<lambda>sl. (nodeId (fst sl), snd sl)) slots))"

text \<open>
  Modelled from the spec: the "replica sum" of a Deployment Assignment, which the
  missing scheduler's contract speaks of.
\<close>

definition replicaSum :: "(string \<times> nat) list \<Rightarrow> nat" where
  "replicaSum a = sum_list (map snd a)"

text \<open>
  Modelled from the spec: the "aggregate advertised capacity" of the records the missing
  scheduler is given.
\<close>

definition aggregateCapacity :: "telemetry list \<Rightarrow> nat" where
  "aggregateCapacity records = sum_list (map capacity records)"

text \<open>The replica slots still open in a working state, and the replicas placed in it.\<close>

definition freeSlots :: "slot list \<Rightarrow> nat" where
  "freeSlots slots = sum_list (map (\<lambda>sl. capacity (fst sl) - snd sl) slots)"

definition placedReplicas :: "slot list \<Rightarrow> nat" where
  "placedReplicas slots = sum_list (map snd slots)"

text \<open>
  Modelled from the spec: the scenario of its section 8, an input of the missing
  scheduler: three nodes of capacities 4, 6 and 2, every node at the same load \<open>l\<close>, and
  a request for 3 replicas of image "w".
\<close>

definition scenarioNodes :: "nat \<Rightarrow> telemetry list" where
  "scenarioNodes l =
     [\<lparr>nodeId = ''node-4'', capacity = 4, load = l, priority = 0\<rparr>,
      \<lparr>nodeId = ''node-6'', capacity = 6, load = l, priority = 0\<rparr>,
      \<lparr>nodeId = ''node-2'', capacity = 2, load = l, priority = 0\<rparr>]"

definition scenarioRequest :: deployment_request where
  "scenarioRequest = \<lparr>requestId = 1, image = ''w'', requestedReplicas = 3\<rparr>"


section \<open>Anchoring on the ledger\<close>

text \<open>
  The README declares the ledger contract's anchoring function,
  \<^verbatim>\<open>function anchorDeployment(bytes32 assignmentHash) external returns (bool)\<close>; the
  contract and the Ledger Sync client that calls it are not among the dashboard sources.
  Both are written down from the specification's section 4.3.
\<close>

text \<open>
  Modelled from the spec: the Deployment Assignment that the missing anchoring code
  commits to (deployment-request id and the mapping from node id to replica count).
\<close>

record deployment_assignment =
  assignmentRequestId :: nat
  assignmentContents :: "(string \<times> nat) list"

text \<open>
  Modelled from the spec: the commitment of the missing anchor operation, "a
  deterministic hash of (requestId, assignment contents)". The hash function itself is a
  parameter: any function will do, since only its being a function is used.
\<close>

definition commitmentOf ::
  "(nat \<times> (string \<times> nat) list \<Rightarrow> 'h) \<Rightarrow> deployment_assignment \<Rightarrow> 'h" where
  "commitmentOf hashOf a = hashOf (assignmentRequestId a, assignmentContents a)"

text \<open>
  Modelled from the spec: the missing ledger-side contract. The ledger is the
  append-only sequence of confirmed commitments; a commitment that is already there is
  "a no-op rather than a duplicate record", and the boolean says whether a record was
  added.
\<close>

definition anchorDeployment :: "'h \<Rightarrow> 'h list \<Rightarrow> bool \<times> 'h list" where
  "anchorDeployment h ledger = (if h \<in> set ledger then (False, ledger) else (True, ledger @ [h]))"

text \<open>
  Modelled from the spec: what one attempt of the missing client's RPC can do. The
  transaction reaches the ledger and the client sees the answer; it reaches the ledger
  but the answer is lost, so the client sees a failure; or it never reaches the ledger.
\<close>

datatype rpc_outcome = Acknowledged | ResponseLost | Unreachable

text \<open>
  Modelled from the spec: the failure of the missing client's anchor operation once its
  attempts are used up.
\<close>

datatype ledger_error = LedgerUnavailable

text \<open>
  Modelled from the spec: \<open>anchorAssignment(assignment)\<close> of the missing Ledger Sync
  client, "commitmentHash | fails(LedgerUnavailable)", with its bounded retries: one
  outcome per attempt, and the attempts are used up when the list is. Every retry
  resubmits the same commitment.
\<close>

fun anchorWithRetries ::
  "'h \<Rightarrow> rpc_outcome list \<Rightarrow> 'h list \<Rightarrow> (ledger_error + 'h) \<times> 'h list" where
  "anchorWithRetries h [] ledger = (Inl LedgerUnavailable, ledger)"
| "anchorWithRetries h (Acknowledged # attempts) ledger =
     (Inr h, snd (anchorDeployment h ledger))"
| "anchorWithRetries h (ResponseLost # attempts) ledger =
     anchorWithRetries h attempts (snd (anchorDeployment h ledger))"
| "anchorWithRetries h (Unreachable # attempts) ledger =
     anchorWithRetries h attempts ledger"

definition anchorAssignment ::
  "(nat \<times> (string \<times> nat) list \<Rightarrow> 'h) \<Rightarrow> rpc_outcome list \<Rightarrow> deployment_assignment \<Rightarrow>
   'h list \<Rightarrow> (ledger_error + 'h) \<times> 'h list" where
  "anchorAssignment hashOf attempts a ledger =
     anchorWithRetries (commitmentOf hashOf a) attempts ledger"

text \<open>
  Modelled from the spec: whether some attempt of a run of the missing client reached
  the ledger. The run stops at the first acknowledged attempt, and every attempt before
  it is made, so an attempt that reaches the ledger anywhere in the list means that one
  was made.
\<close>

definition reachedLedger :: "rpc_outcome list \<Rightarrow> bool" where
  "reachedLedger attempts \<longleftrightarrow> Acknowledged \<in> set attempts \<or> ResponseLost \<in> set attempts"

text \<open>A hash for the sample runs: the request id and the total of the replica counts.\<close>

definition sampleHash :: "nat \<times> (string \<times> nat) list \<Rightarrow> nat \<times> nat" where
  "sampleHash x = (fst x, sum_list (map snd (snd x)))"

definition sampleAssignment :: deployment_assignment where
  "sampleAssignment =
     \<lparr>assignmentRequestId = 1,
      assignmentContents = [(''node-4'', 1), (''node-6'', 2), (''node-2'', 0)]\<rparr>"


section \<open>Sample inputs\<close>

text \<open>Concrete environments and states on which the theorems below are run.\<close>

definition sampleContract :: contract_info where
  "sampleContract = \<lparr>address = ''0x4A679253410272dd5232B3Ff7cF5dbB88f295319'', abi = ''Canteen''\<rparr>"

text \<open>The state of the hook after its first render: the initial values of \<^verbatim>\<open>useState\<close>.\<close>

definition initialState :: hook_state where
  "initialState =
     \<lparr>message = [], isProcessing = False, members = [], images = [], refreshTrigger = 0,
      contractCalls = [], refetchImagesCountCalls = 0\<rparr>"

text \<open>A state in which an earlier write is still awaited.\<close>

definition busyState :: hook_state where
  "busyState = initialState\<lparr>message := ''Adding image...'', isProcessing := True\<rparr>"




definition acceptingWrite :: "contract_call \<Rightarrow> js_error + string" where
  "acceptingWrite call = Inr ''0xabc''"

definition sampleEnv ::
  "contract_info option \<Rightarrow> (contract_call \<Rightarrow> js_error + string) option \<Rightarrow>
   uint256 option \<Rightarrow> hook_env" where
  "sampleEnv c w mc =
     \<lparr>canteenContract = c, writeContractAsync = w, membersCount = mc, imagesCount = None,
      ethersReadonlyProvider = None, heapRoom = 1000000,
      notIntegerMessage =
        ''The number NaN cannot be converted to a BigInt because it is not an integer'',
      arrayLengthMessage = ''Invalid array length'',
      nullishReadMessage = ''Cannot read properties of undefined''\<rparr>"

text \<open>A provider whose contract lists one image and reverts on the second index.\<close>

definition sampleProvider :: ethers_provider where
  "sampleProvider =
     \<lparr>readImages = (\<lambda>i. if i = 0 then Inr ''nginx'' else Inl (Error (Some ''call revert exception''))),
      readImageDetails = (\<lambda>imageName. Inr (3, 2, True))\<rparr>"


section \<open>Facts about the JavaScript values\<close>

lemma bitLength_le: "n < 2 ^ k \<Longrightarrow> bitLength n \<le> k"
proof (induction k arbitrary: n)
  case 0
  then show ?case by (simp add: bitLength.simps)
next
  case (Suc k)
  show ?case
  proof (cases "n = 0")
    case True
    then show ?thesis by (simp add: bitLength.simps)
  next
    case False
    from Suc.prems have "n div 2 < 2 ^ k" by simp
    then have "bitLength (n div 2) \<le> k" by (rule Suc.IH)
    with False show ?thesis by (subst bitLength.simps) simp
  qed
qed

lemma bitLength_lower: "n \<noteq> 0 \<Longrightarrow> (2::nat) ^ (bitLength n - 1) \<le> n"
proof (induction n rule: bitLength.induct)
  case (1 n)
  show ?case
  proof (cases "n div 2 = 0")
    case True
    with "1.prems" have "n = 1" by (simp add: div_eq_0_iff)
    then show ?thesis by (simp add: bitLength.simps)
  next
    case False
    with 1 have ih: "(2::nat) ^ (bitLength (n div 2) - 1) \<le> n div 2" by simp
    from False have pos: "bitLength (n div 2) \<noteq> 0" by (subst bitLength.simps) simp
    have "bitLength n = Suc (bitLength (n div 2))"
      using "1.prems" by (subst bitLength.simps) simp
    then have "(2::nat) ^ (bitLength n - 1) = 2 * 2 ^ (bitLength (n div 2) - 1)"
      using pos by (cases "bitLength (n div 2)") simp_all
    also have "\<dots> \<le> 2 * (n div 2)" using ih by simp
    also have "\<dots> \<le> n" by simp
    finally show ?thesis .
  qed
qed

text \<open>Integers up to \<open>2^53\<close> are doubles: the conversion and the increment are exact there.\<close>

lemma Number_small: "n < 2 ^ 53 \<Longrightarrow> Number n = n"
  using bitLength_le [of n 53] by (simp add: Number_def Let_def)

lemma bitLength_2_53: "bitLength 9007199254740992 = 54"
  by (simp add: bitLength.simps)

lemma Number_2_53: "Number 9007199254740992 = 9007199254740992"
  by (simp add: Number_def bitLength_2_53)

lemma Number_exact: "n \<le> 9007199254740992 \<Longrightarrow> Number n = n"
proof (cases "n = 9007199254740992")
  case True
  then show ?thesis by (simp add: Number_2_53)
next
  case False
  assume "n \<le> 9007199254740992"
  with False have "n < 2 ^ 53" by simp
  then show ?thesis by (rule Number_small)
qed

lemma js_succ_exact: "i < 9007199254740992 \<Longrightarrow> js_succ i = Suc i"
  by (simp add: js_succ_def Number_exact)

text \<open>Above \<open>2^53\<close> the conversion rounds: \<open>2^53 + 1\<close> is not a double.\<close>

lemma bitLength_2_53_1: "bitLength 9007199254740993 = 54"
  by (simp add: bitLength.simps)

lemma Number_rounds: "Number 9007199254740993 = 9007199254740992"
  by (simp add: Number_def bitLength_2_53_1)

lemma Number_pos: "0 < n \<Longrightarrow> 0 < Number n"
proof -
  assume n: "0 < n"
  show ?thesis
  proof (cases "bitLength n \<le> 53")
    case True
    with n show ?thesis by (simp add: Number_def Let_def)
  next
    case False
    define sh where "sh = bitLength n - 53"
    have "(2::nat) ^ (bitLength n - 1) \<le> n" using n bitLength_lower by simp
    moreover have "(2::nat) ^ sh \<le> 2 ^ (bitLength n - 1)"
      unfolding sh_def by (rule power_increasing) auto
    ultimately have "(2::nat) ^ sh \<le> n" by (rule order_trans [rotated])
    then have "0 < n div 2 ^ sh" by (simp add: div_greater_zero_iff)
    then show ?thesis using False by (simp add: Number_def Let_def sh_def)
  qed
qed

lemma Number_eq_0_iff: "Number n = 0 \<longleftrightarrow> n = 0"
proof
  assume "Number n = 0"
  then show "n = 0" using Number_pos [of n] by (cases "n = 0") simp_all
next
  assume "n = 0"
  then show "Number n = 0" by (simp add: Number_small)
qed

lemma bitLength_upper: "n < 2 ^ bitLength n"
proof (induction n rule: bitLength.induct)
  case (1 n)
  show ?case
  proof (cases "n = 0")
    case True
    then show ?thesis by simp
  next
    case False
    with 1 have "n div 2 < 2 ^ bitLength (n div 2)" by simp
    then have "n < 2 * 2 ^ bitLength (n div 2)" by linarith
    moreover have "bitLength n = Suc (bitLength (n div 2))"
      using False by (subst bitLength.simps) simp
    ultimately show ?thesis by simp
  qed
qed

text \<open>From \<open>2^53\<close> on the conversion may round, but never below \<open>2^53\<close>.\<close>

lemma Number_large:
  assumes "9007199254740992 \<le> n"
  shows "9007199254740992 \<le> Number n"
proof (cases "bitLength n \<le> 53")
  case True
  have "n < 2 ^ bitLength n" by (rule bitLength_upper)
  also have "(2::nat) ^ bitLength n \<le> 2 ^ 53" using True by (rule power_increasing) simp
  finally show ?thesis using assms by simp
next
  case False
  define sh where "sh = bitLength n - 53"
  have sh: "0 < sh" and e: "bitLength n - 1 = 52 + sh" using False by (simp_all add: sh_def)
  have "n \<noteq> 0" using assms by auto
  then have "(2::nat) ^ (bitLength n - 1) \<le> n" by (rule bitLength_lower)
  then have "(2::nat) ^ (52 + sh) \<le> n" by (simp only: e)
  then have "(2::nat) ^ 52 * 2 ^ sh \<le> n" by (simp add: power_add)
  then have q: "(2::nat) ^ 52 \<le> n div 2 ^ sh" by (simp add: less_eq_div_iff_mult_less_eq)
  have "(2::nat) ^ 1 \<le> 2 ^ sh" using sh by (intro power_increasing) simp_all
  then have two: "(2::nat) \<le> 2 ^ sh" by simp
  have "(2::nat) ^ 52 * 2 \<le> n div 2 ^ sh * 2 ^ sh" using q two by (rule mult_le_mono)
  also have "\<dots> \<le> Number n"
    using False by (simp add: Number_def Let_def sh_def)
  finally show ?thesis by simp
qed

lemma showNat_digit: "n < 10 \<Longrightarrow> showNat n = [digitChar n]"
  by (subst showNat.simps) simp

section \<open>Facts about the hook\<close>

subsection \<open>The loop of fetchMembers\<close>

text \<open>
  While the heap has room for the rest of the list, the loop returns: it has pushed the
  placeholders in order.
\<close>

lemma fetchMembersLoop_returns:
  "count \<le> 9007199254740992 \<Longrightarrow> room \<le> maxArrayLength \<Longrightarrow>
   length acc + (count - i) \<le> room \<Longrightarrow>
   fetchMembersLoop room msg i count acc =
     Some (Returned (acc @ map (\<lambda>k. ''Member '' @ showNat k) [i..<count]))"
proof (induction "count - i" arbitrary: i acc)
  case 0
  then show ?case by (subst fetchMembersLoop.simps) simp
next
  case (Suc d)
  from Suc.hyps(2) have lt: "i < count" by simp
  with Suc.prems(1) have succ: "js_succ i = Suc i" by (simp add: js_succ_exact)
  have d: "d = count - Suc i" using Suc.hyps(2) by simp
  have upt: "[i..<count] = i # [Suc i..<count]" using lt by (rule upt_conv_Cons)
  have room: "length acc < room" using Suc.prems(3) lt by simp
  then have full: "length acc < maxArrayLength" using Suc.prems(2) by simp
  have rest: "length (acc @ [''Member '' @ showNat i]) + (count - Suc i) \<le> room"
    using Suc.prems(3) lt by simp
  have ih: "fetchMembersLoop room msg (Suc i) count (acc @ [''Member '' @ showNat i]) =
      Some (Returned ((acc @ [''Member '' @ showNat i]) @
        map (\<lambda>k. ''Member '' @ showNat k) [Suc i..<count]))"
    by (rule Suc.hyps(1) [OF d Suc.prems(1,2) rest])
  show ?case
    using lt room full ih
    by (subst fetchMembersLoop.simps) (simp add: succ js_push_def upt)
qed

text \<open>
  When the list asked for is longer than the heap has room for, the run ends out of
  memory: the push that finds no room is reached before any array is full.
\<close>

lemma fetchMembersLoop_exhausts:
  "room < maxArrayLength \<Longrightarrow> length acc \<le> room \<Longrightarrow> room - length acc < count - i \<Longrightarrow>
   i + (room - length acc) < 9007199254740992 \<Longrightarrow>
   fetchMembersLoop room msg i count acc = Some HeapExhausted"
proof (induction "room - length acc" arbitrary: i acc)
  case 0
  then have "i < count" and "room \<le> length acc" by simp_all
  then show ?case by (subst fetchMembersLoop.simps) (simp add: js_push_def)
next
  case (Suc d)
  from Suc.hyps(2) have room: "length acc < room" by simp
  then have full: "length acc < maxArrayLength" using Suc.prems(1) by simp
  have lt: "i < count" using Suc.prems(3) by simp
  have "i < 9007199254740992" using Suc.prems(4) by simp
  then have succ: "js_succ i = Suc i" by (rule js_succ_exact)
  let ?acc = "acc @ [''Member '' @ showNat i]"
  have d: "d = room - length ?acc" using Suc.hyps(2) by simp
  have le: "length ?acc \<le> room" using room by simp
  have more: "room - length ?acc < count - Suc i" using Suc.prems(3) Suc.hyps(2) by simp
  have exact: "Suc i + (room - length ?acc) < 9007199254740992"
    using Suc.prems(4) Suc.hyps(2) by simp
  have ih: "fetchMembersLoop room msg (Suc i) count ?acc = Some HeapExhausted"
    by (rule Suc.hyps(1) [OF d Suc.prems(1) le more exact])
  show ?case
    using lt room full ih
    by (subst fetchMembersLoop.simps) (simp add: succ js_push_def)
qed

subsection \<open>The branch without a contract\<close>

text \<open>
  Claim C8. Whenever the contract info or the write function is missing, \<open>addImage\<close>
  and \<open>removeImage\<close> only set the message to "Contract not available": they return
  without throwing, and the rest of the state is as it was. In particular \<open>isProcessing\<close>
  keeps its value and the list of calls sent to the contract does not grow, so no
  transaction is submitted.
\<close>

theorem contract_not_available:
  "canteenContract env = None \<or> writeContractAsync env = None \<Longrightarrow>
   addImage env imageName numReplicas s = (None, s\<lparr>message := ''Contract not available''\<rparr>) \<and>
   removeImage env imageName s = (None, s\<lparr>message := ''Contract not available''\<rparr>)"
  by (auto simp: addImage_def removeImage_def split: option.splits)

theorem contract_not_available_witness:
  "addImage (sampleEnv None (Some acceptingWrite) None) ''nginx'' (Integral 3) busyState =
     (None, busyState\<lparr>message := ''Contract not available''\<rparr>) \<and>
   removeImage (sampleEnv (Some sampleContract) None None) ''nginx'' busyState =
     (None, busyState\<lparr>message := ''Contract not available''\<rparr>) \<and>
   isProcessing (busyState\<lparr>message := ''Contract not available''\<rparr>) \<and>
   contractCalls (busyState\<lparr>message := ''Contract not available''\<rparr>) = []"
  using contract_not_available
      [of "sampleEnv None (Some acceptingWrite) None" "''nginx''" "Integral 3" busyState]
    contract_not_available
      [of "sampleEnv (Some sampleContract) None None" "''nginx''" "Integral 3" busyState]
  by (simp add: sampleEnv_def busyState_def initialState_def)

subsection \<open>Errors of the write\<close>




subsection \<open>The returned counts\<close>

lemma countOrZero_eq_0_iff: "countOrZero v = 0 \<longleftrightarrow> v = None \<or> v = Some 0"
  by (cases v) (simp_all add: countOrZero_def Number_eq_0_iff unat_eq_0)

text \<open>
  Claim C9. The \<open>membersCount\<close> and \<open>imagesCount\<close> that the hook returns are natural
  numbers in every environment. Each is 0 exactly when the contract read gave no value
  or gave zero; otherwise it is \<open>Number\<close> of the on-chain count, which is the count
  itself up to \<open>2^53\<close>.
\<close>

theorem returned_counts:
  "(returnedMembersCount env = 0 \<longleftrightarrow> membersCount env = None \<or> membersCount env = Some 0) \<and>
   (returnedImagesCount env = 0 \<longleftrightarrow> imagesCount env = None \<or> imagesCount env = Some 0) \<and>
   (\<forall>c. membersCount env = Some c \<and> c \<noteq> 0 \<longrightarrow> returnedMembersCount env = Number (unat c)) \<and>
   (\<forall>c. imagesCount env = Some c \<and> c \<noteq> 0 \<longrightarrow> returnedImagesCount env = Number (unat c)) \<and>
   (\<forall>c. membersCount env = Some c \<and> unat c \<le> 9007199254740992 \<longrightarrow>
        returnedMembersCount env = unat c) \<and>
   (\<forall>c. imagesCount env = Some c \<and> unat c \<le> 9007199254740992 \<longrightarrow>
        returnedImagesCount env = unat c)"
proof (intro conjI allI impI)
  show "returnedMembersCount env = 0 \<longleftrightarrow> membersCount env = None \<or> membersCount env = Some 0"
    by (simp add: returnedMembersCount_def countOrZero_eq_0_iff)
  show "returnedImagesCount env = 0 \<longleftrightarrow> imagesCount env = None \<or> imagesCount env = Some 0"
    by (simp add: returnedImagesCount_def countOrZero_eq_0_iff)
qed (auto simp: returnedMembersCount_def returnedImagesCount_def countOrZero_def Number_exact)

theorem returned_counts_witness:
  "returnedMembersCount (sampleEnv None None (Some 7)) = 7 \<and>
   returnedMembersCount (sampleEnv None None (Some 0)) = 0 \<and>
   returnedMembersCount (sampleEnv None None None) = 0 \<and>
   returnedImagesCount (sampleEnv None None (Some 7)) = 0 \<and>
   returnedMembersCount (sampleEnv None None (Some 9007199254740993)) = 9007199254740992"
  using returned_counts [of "sampleEnv None None (Some 7)"]
    returned_counts [of "sampleEnv None None (Some 0)"]
    returned_counts [of "sampleEnv None None None"]
    returned_counts [of "sampleEnv None None (Some 9007199254740993)"]
  by (simp add: sampleEnv_def Number_rounds)

subsection \<open>The members list\<close>

lemma fetchMembers_returns:
  assumes "canteenContract env = Some c" and "membersCount env = Some mc" and "mc \<noteq> 0"
    and "heapRoom env < maxArrayLength" and "unat mc \<le> heapRoom env"
  shows "fetchMembers env s =
           Some (Returned (s\<lparr>members := map (\<lambda>i. ''Member '' @ showNat i) [0..<unat mc]\<rparr>))"
proof -
  from assms(4,5) have small: "unat mc \<le> 9007199254740992" by (simp add: maxArrayLength_def)
  then have n: "Number (unat mc) = unat mc" by (rule Number_exact)
  have "fetchMembersLoop (heapRoom env) (arrayLengthMessage env) 0 (unat mc) [] =
      Some (Returned ([] @ map (\<lambda>k. ''Member '' @ showNat k) [0..<unat mc]))"
    using small assms(4,5) by (intro fetchMembersLoop_returns) simp_all
  with assms(1-3) show ?thesis by (simp add: fetchMembers_def n)
qed

lemma fetchMembers_exhausts:
  assumes "canteenContract env = Some c" and "membersCount env = Some mc" and "mc \<noteq> 0"
    and "heapRoom env < maxArrayLength" and "heapRoom env < unat mc"
  shows "fetchMembers env s = Some HeapExhausted"
proof -
  have room: "heapRoom env < 9007199254740992" using assms(4) by (simp add: maxArrayLength_def)
  have "heapRoom env < Number (unat mc)"
  proof (cases "unat mc \<le> 9007199254740992")
    case True
    then show ?thesis using assms(5) by (simp add: Number_exact)
  next
    case False
    then have "9007199254740992 \<le> Number (unat mc)" by (intro Number_large) simp
    with room show ?thesis by simp
  qed
  then have "fetchMembersLoop (heapRoom env) (arrayLengthMessage env) 0 (Number (unat mc)) [] =
      Some HeapExhausted"
    using assms(4) room by (intro fetchMembersLoop_exhausts) simp_all
  with assms(1-3) show ?thesis by (simp add: fetchMembers_def)
qed

text \<open>
  Claim C10. On every engine the heap is exhausted before an array is full (its room is
  below \<open>2^32 - 1\<close> elements). Then every fetch with a defined contract and a non-zero
  on-chain count ends in one of two ways. When the heap has room for the count, it
  returns, and the only thing it has changed is the members list: entry \<open>i\<close> is the
  placeholder "Member i" for every \<open>i\<close> below the count, so the list is as long as the
  on-chain count. Otherwise the page runs out of memory and no list results. So every
  list that a fetch yields is the list of placeholders, of the length of the on-chain
  count. In no case does the list of calls sent to the contract change: no member
  address or peer id is read.
\<close>

theorem fetchMembers_placeholders:
  assumes "canteenContract env = Some c" and "membersCount env = Some mc" and "mc \<noteq> 0"
    and "heapRoom env < maxArrayLength"
  shows "(unat mc \<le> heapRoom env \<longrightarrow>
            fetchMembers env s =
              Some (Returned (s\<lparr>members := map (\<lambda>i. ''Member '' @ showNat i) [0..<unat mc]\<rparr>))) \<and>
         (heapRoom env < unat mc \<longrightarrow> fetchMembers env s = Some HeapExhausted) \<and>
         (\<forall>s'. fetchMembers env s = Some (Returned s') \<longrightarrow>
            s' = s\<lparr>members := map (\<lambda>i. ''Member '' @ showNat i) [0..<unat mc]\<rparr> \<and>
            length (members s') = unat mc \<and>
            (\<forall>i < unat mc. members s' ! i = ''Member '' @ showNat i) \<and>
            contractCalls s' = contractCalls s)"
proof -
  let ?list = "map (\<lambda>i. ''Member '' @ showNat i) [0..<unat mc]"
  have returns: "fetchMembers env s = Some (Returned (s\<lparr>members := ?list\<rparr>))"
    if "unat mc \<le> heapRoom env"
    using assms that by (rule fetchMembers_returns)
  have exhausts: "fetchMembers env s = Some HeapExhausted" if "heapRoom env < unat mc"
    using assms that by (rule fetchMembers_exhausts)
  have yields: "s' = s\<lparr>members := ?list\<rparr> \<and> length (members s') = unat mc \<and>
      (\<forall>i < unat mc. members s' ! i = ''Member '' @ showNat i) \<and>
      contractCalls s' = contractCalls s"
    if ret: "fetchMembers env s = Some (Returned s')" for s'
  proof -
    have "unat mc \<le> heapRoom env"
    proof (rule ccontr)
      assume "\<not> unat mc \<le> heapRoom env"
      then have "fetchMembers env s = Some HeapExhausted" by (intro exhausts) simp
      with ret show False by simp
    qed
    then have "fetchMembers env s = Some (Returned (s\<lparr>members := ?list\<rparr>))" by (rule returns)
    with ret have "s' = s\<lparr>members := ?list\<rparr>" by simp
    then show ?thesis by simp
  qed
  show ?thesis
  proof (intro conjI)
    show "unat mc \<le> heapRoom env \<longrightarrow>
        fetchMembers env s = Some (Returned (s\<lparr>members := ?list\<rparr>))"
      by (intro impI returns)
    show "heapRoom env < unat mc \<longrightarrow> fetchMembers env s = Some HeapExhausted"
      by (intro impI exhausts)
    show "\<forall>s'. fetchMembers env s = Some (Returned s') \<longrightarrow>
        s' = s\<lparr>members := ?list\<rparr> \<and> length (members s') = unat mc \<and>
        (\<forall>i < unat mc. members s' ! i = ''Member '' @ showNat i) \<and>
        contractCalls s' = contractCalls s"
      by (intro allI impI yields)
  qed
qed

theorem fetchMembers_placeholders_witness:
  "fetchMembers (sampleEnv (Some sampleContract) None (Some 3)) busyState =
     Some (Returned (busyState\<lparr>members := [''Member 0'', ''Member 1'', ''Member 2'']\<rparr>)) \<and>
   fetchMembers ((sampleEnv (Some sampleContract) None (Some 3))\<lparr>heapRoom := 2\<rparr>) busyState =
     Some HeapExhausted \<and>
   fetchMembers (sampleEnv (Some sampleContract) None (Some 4294967296)) busyState =
     Some HeapExhausted"
proof -
  have three: "fetchMembers (sampleEnv (Some sampleContract) None (Some 3)) busyState =
      Some (Returned (busyState\<lparr>members := [''Member 0'', ''Member 1'', ''Member 2'']\<rparr>))"
  proof -
    have "unat (3 :: uint256) \<le> heapRoom (sampleEnv (Some sampleContract) None (Some 3))"
      by (simp add: sampleEnv_def)
    then have "fetchMembers (sampleEnv (Some sampleContract) None (Some 3)) busyState =
        Some (Returned (busyState\<lparr>members :=
          map (\<lambda>i. ''Member '' @ showNat i) [0..<unat (3 :: uint256)]\<rparr>))"
      by (rule fetchMembers_placeholders
          [where c = sampleContract, THEN conjunct1, THEN mp, rotated 4])
         (simp_all add: sampleEnv_def maxArrayLength_def)
    then show ?thesis by (simp add: upt_rec showNat_digit digitChar_def)
  qed
  have tight: "fetchMembers ((sampleEnv (Some sampleContract) None (Some 3))\<lparr>heapRoom := 2\<rparr>)
      busyState = Some HeapExhausted"
  proof -
    have "heapRoom ((sampleEnv (Some sampleContract) None (Some 3))\<lparr>heapRoom := 2\<rparr>) <
        unat (3 :: uint256)"
      by simp
    then show ?thesis
      by (rule fetchMembers_placeholders
          [where c = sampleContract, THEN conjunct2, THEN conjunct1, THEN mp, rotated 4])
         (simp_all add: sampleEnv_def maxArrayLength_def)
  qed
  have huge: "fetchMembers (sampleEnv (Some sampleContract) None (Some 4294967296)) busyState =
      Some HeapExhausted"
  proof -
    have "heapRoom (sampleEnv (Some sampleContract) None (Some 4294967296)) <
        unat (4294967296 :: uint256)"
      by (simp add: sampleEnv_def)
    then show ?thesis
      by (rule fetchMembers_placeholders
          [where c = sampleContract, THEN conjunct2, THEN conjunct1, THEN mp, rotated 4])
         (simp_all add: sampleEnv_def maxArrayLength_def)
  qed
  from three tight huge show ?thesis by simp
qed
subsection \<open>The images list, for comparison\<close>

text \<open>
  Unlike \<open>fetchMembers\<close>, \<open>fetchImages\<close> does read the contract: two calls for an image
  that is there, one for an index that reverts.
\<close>

lemma fetchImages_reads_contract:
  "fetchImages
     ((sampleEnv (Some sampleContract) None None)
        \<lparr>imagesCount := Some 2, ethersReadonlyProvider := Some sampleProvider\<rparr>)
     initialState =
   Some (Returned (initialState
     \<lparr>images := [\<lparr>name = ''nginx'', replicas = 3, deployed = 2, active = True\<rparr>],
      contractCalls :=
        [\<lparr>callAddress = address sampleContract, callAbi = abi sampleContract,
          functionName = ''images'', callArgs = [ArgNumber 0]\<rparr>,
         \<lparr>callAddress = address sampleContract, callAbi = abi sampleContract,
          functionName = ''getImageDetails'', callArgs = [ArgString ''nginx'']\<rparr>,
         \<lparr>callAddress = address sampleContract, callAbi = abi sampleContract,
          functionName = ''images'', callArgs = [ArgNumber 1]\<rparr>]\<rparr>))"
proof -
  let ?c0 = "\<lparr>callAddress = address sampleContract, callAbi = abi sampleContract,
          functionName = ''images'', callArgs = [ArgNumber 0]\<rparr>"
  let ?c1 = "\<lparr>callAddress = address sampleContract, callAbi = abi sampleContract,
          functionName = ''getImageDetails'', callArgs = [ArgString ''nginx'']\<rparr>"
  let ?c2 = "\<lparr>callAddress = address sampleContract, callAbi = abi sampleContract,
          functionName = ''images'', callArgs = [ArgNumber 1]\<rparr>"
  let ?img = "\<lparr>name = ''nginx'', replicas = 3, deployed = 2, active = True\<rparr>"
  let ?loop = "fetchImagesLoop 1000000 ''Invalid array length'' sampleProvider sampleContract"
  have n: "Number 2 = 2" "Number 3 = 3" by (simp_all add: Number_exact)
  have s0: "js_succ 0 = Suc 0" and s1: "js_succ (Suc 0) = 2" by (simp_all add: js_succ_exact)
  have r0: "fetchImageAt 1000000 ''Invalid array length'' sampleProvider sampleContract 0 ([], []) =
      Returned ([?img], [?c0, ?c1])"
    by (simp add: fetchImageAt_def sampleProvider_def js_push_def maxArrayLength_def n)
  have r1: "fetchImageAt 1000000 ''Invalid array length'' sampleProvider sampleContract (Suc 0)
      ([?img], [?c0, ?c1]) = Returned ([?img], [?c0, ?c1, ?c2])"
    by (simp add: fetchImageAt_def sampleProvider_def)
  have l2: "?loop 2 2 ([?img], [?c0, ?c1, ?c2]) = Some (Returned ([?img], [?c0, ?c1, ?c2]))"
    by (subst fetchImagesLoop.simps) simp
  have l1: "?loop (Suc 0) 2 ([?img], [?c0, ?c1]) = Some (Returned ([?img], [?c0, ?c1, ?c2]))"
    using l2 by (subst fetchImagesLoop.simps) (simp add: r1 s1)
  have l0: "?loop 0 2 ([], []) = Some (Returned ([?img], [?c0, ?c1, ?c2]))"
    using l1 by (subst fetchImagesLoop.simps) (simp add: r0 s0)
  show ?thesis
    using l0 by (simp add: fetchImages_def sampleEnv_def initialState_def n)
qed

section \<open>Facts about the scheduler\<close>

subsection \<open>The selection and one assignment\<close>

lemma foldl_choice_mem:
  "foldl (\<lambda>best j. if P j best then j else best) i rest \<in> set (i # rest)"
  by (induction rest arbitrary: i) auto

lemma selectNode_Some:
  assumes "selectNode slots = Some i"
  shows "i < length slots \<and> belowLimit (slots ! i)"
proof -
  let ?cands = "filter (\<lambda>i. belowLimit (slots ! i)) [0..<length slots]"
  from assms obtain c rest where c: "?cands = c # rest"
    and i: "i = foldl (\<lambda>best j. if lessLoaded (slots ! j) (slots ! best) then j else best) c rest"
    by (auto simp: selectNode_def split: list.splits)
  have "i \<in> set (c # rest)" unfolding i by (rule foldl_choice_mem)
  then have "i \<in> set ?cands" by (simp only: c)
  then show ?thesis by simp
qed

lemma selectNode_None:
  "selectNode slots = None \<longleftrightarrow> (\<forall>sl \<in> set slots. \<not> belowLimit sl)"
proof -
  have "selectNode slots = None \<longleftrightarrow> filter (\<lambda>i. belowLimit (slots ! i)) [0..<length slots] = []"
    by (simp add: selectNode_def split: list.splits)
  also have "\<dots> \<longleftrightarrow> (\<forall>i < length slots. \<not> belowLimit (slots ! i))"
    by (auto simp: filter_empty_conv)
  also have "\<dots> \<longleftrightarrow> (\<forall>sl \<in> set slots. \<not> belowLimit sl)"
    by (simp add: all_set_conv_all_nth)
  finally show ?thesis .
qed

lemma freeSlots_0_iff: "freeSlots slots = 0 \<longleftrightarrow> (\<forall>sl \<in> set slots. \<not> belowLimit sl)"
  by (auto simp: freeSlots_def belowLimit_def)

lemma freeSlots_assignOne:
  assumes "i < length slots" and "belowLimit (slots ! i)"
  shows "Suc (freeSlots (assignOne slots i)) = freeSlots slots"
proof -
  let ?f = "\<lambda>sl :: slot. capacity (fst sl) - snd sl"
  have len: "i < length (map ?f slots)" using assms(1) by simp
  have "freeSlots (assignOne slots i) = sum_list ((map ?f slots)[i := ?f (slots ! i) - 1])"
    by (simp add: freeSlots_def assignOne_def map_update)
  also have "\<dots> = sum_list (map ?f slots) + (?f (slots ! i) - 1) - (map ?f slots) ! i"
    using len by (rule sum_list_update)
  finally have "freeSlots (assignOne slots i) = freeSlots slots + (?f (slots ! i) - 1) - ?f (slots ! i)"
    using assms(1) by (simp add: freeSlots_def)
  moreover have "0 < ?f (slots ! i)" using assms(2) by (simp add: belowLimit_def)
  moreover have "?f (slots ! i) \<le> freeSlots slots"
    unfolding freeSlots_def by (rule member_le_sum_list) (use assms(1) in simp_all)
  ultimately show ?thesis by simp
qed

lemma placedReplicas_assignOne:
  assumes "i < length slots"
  shows "placedReplicas (assignOne slots i) = Suc (placedReplicas slots)"
proof -
  have len: "i < length (map snd slots)" using assms by simp
  have "placedReplicas (assignOne slots i) = sum_list ((map snd slots)[i := Suc (snd (slots ! i))])"
    by (simp add: placedReplicas_def assignOne_def map_update)
  also have "\<dots> = sum_list (map snd slots) + Suc (snd (slots ! i)) - (map snd slots) ! i"
    using len by (rule sum_list_update)
  finally show ?thesis using assms by (simp add: placedReplicas_def)
qed

lemma nodes_assignOne: "map fst (assignOne slots i) = map fst slots"
proof (cases "i < length slots")
  case True
  then show ?thesis by (simp add: assignOne_def map_update list_update_same_conv)
next
  case False
  then show ?thesis by (simp add: assignOne_def list_update_beyond)
qed

lemma place_Some_iff: "place r slots \<noteq> None \<longleftrightarrow> r \<le> freeSlots slots"
proof (induction r arbitrary: slots)
  case 0
  show ?case by simp
next
  case (Suc r)
  show ?case
  proof (cases "selectNode slots")
    case None
    then have "freeSlots slots = 0" by (simp add: selectNode_None freeSlots_0_iff)
    with None show ?thesis by simp
  next
    case (Some i)
    then have "i < length slots" and "belowLimit (slots ! i)"
      using selectNode_Some by blast+
    then have "Suc (freeSlots (assignOne slots i)) = freeSlots slots"
      by (rule freeSlots_assignOne)
    with Some Suc.IH [of "assignOne slots i"] show ?thesis by auto
  qed
qed

lemma place_result:
  "place r slots = Some slots' \<Longrightarrow>
   placedReplicas slots' = placedReplicas slots + r \<and> map fst slots' = map fst slots"
proof (induction r arbitrary: slots)
  case 0
  then show ?case by simp
next
  case (Suc r)
  from Suc.prems obtain i where i: "selectNode slots = Some i"
    and rest: "place r (assignOne slots i) = Some slots'"
    by (auto split: option.splits)
  from i have "i < length slots" using selectNode_Some by blast
  then have "placedReplicas (assignOne slots i) = Suc (placedReplicas slots)"
    by (rule placedReplicas_assignOne)
  with Suc.IH [OF rest] show ?case by (simp add: nodes_assignOne)
qed

lemma freeSlots_initial: "freeSlots (map (\<lambda>n. (n, 0)) records) = aggregateCapacity records"
  by (simp add: freeSlots_def aggregateCapacity_def comp_def)

lemma placedReplicas_initial: "placedReplicas (map (\<lambda>n. (n, 0)) records) = 0"
  by (induction records) (simp_all add: placedReplicas_def)

lemma replicaSum_slots: "replicaSum (map (\<lambda>sl. (nodeId (fst sl), snd sl)) slots) = placedReplicas slots"
  by (simp add: replicaSum_def placedReplicas_def comp_def)

lemma evaluateSchedule_Assignment:
  "evaluateSchedule request records = Assignment a \<Longrightarrow> replicaSum a = requestedReplicas request"
  by (auto simp: evaluateSchedule_def replicaSum_slots placedReplicas_initial
      dest!: place_result split: option.splits)

lemma evaluateSchedule_UNSATISFIABLE_iff:
  "evaluateSchedule request records = UNSATISFIABLE \<longleftrightarrow>
   aggregateCapacity records < requestedReplicas request"
  using place_Some_iff [of "requestedReplicas request" "map (\<lambda>n. (n, 0)) records"]
  by (auto simp: evaluateSchedule_def freeSlots_initial split: option.splits)


text \<open>
  Claim C1. For every request and every list of node records: when the aggregate
  advertised capacity is at least the requested replica count, the evaluation returns an
  assignment whose replica counts add up to the requested count exactly; when the
  aggregate capacity is smaller, it returns UNSATISFIABLE; and no assignment it returns
  is partial (a replica sum strictly between 0 and the requested count).
\<close>

theorem evaluateSchedule_all_or_nothing:
  "(requestedReplicas request \<le> aggregateCapacity records \<longrightarrow>
      (\<exists>a. evaluateSchedule request records = Assignment a \<and>
           replicaSum a = requestedReplicas request)) \<and>
   (aggregateCapacity records < requestedReplicas request \<longrightarrow>
      evaluateSchedule request records = UNSATISFIABLE) \<and>
   (\<forall>a. evaluateSchedule request records = Assignment a \<longrightarrow>
      \<not> (0 < replicaSum a \<and> replicaSum a < requestedReplicas request))"
proof (intro conjI impI allI)
  assume "requestedReplicas request \<le> aggregateCapacity records"
  then have "evaluateSchedule request records \<noteq> UNSATISFIABLE"
    by (simp add: evaluateSchedule_UNSATISFIABLE_iff)
  then obtain a where "evaluateSchedule request records = Assignment a"
    by (cases "evaluateSchedule request records") auto
  then show "\<exists>a. evaluateSchedule request records = Assignment a \<and>
      replicaSum a = requestedReplicas request"
    by (auto dest: evaluateSchedule_Assignment)
next
  assume "aggregateCapacity records < requestedReplicas request"
  then show "evaluateSchedule request records = UNSATISFIABLE"
    by (simp add: evaluateSchedule_UNSATISFIABLE_iff)
next
  fix a
  assume "evaluateSchedule request records = Assignment a"
  then have "replicaSum a = requestedReplicas request" by (rule evaluateSchedule_Assignment)
  then show "\<not> (0 < replicaSum a \<and> replicaSum a < requestedReplicas request)" by simp
qed

theorem evaluateSchedule_all_or_nothing_witness:
  "aggregateCapacity (scenarioNodes 0) = 12 \<and>
   evaluateSchedule (scenarioRequest\<lparr>requestedReplicas := 12\<rparr>) (scenarioNodes 0) =
     Assignment [(''node-4'', 4), (''node-6'', 6), (''node-2'', 2)] \<and>
   replicaSum [(''node-4'', 4), (''node-6'', 6), (''node-2'', 2)] = 12 \<and>
   evaluateSchedule (scenarioRequest\<lparr>requestedReplicas := 13\<rparr>) (scenarioNodes 0) = UNSATISFIABLE"
proof -
  have cap: "aggregateCapacity (scenarioNodes 0) = 12"
    by (simp add: aggregateCapacity_def scenarioNodes_def)
  have run: "evaluateSchedule (scenarioRequest\<lparr>requestedReplicas := 12\<rparr>) (scenarioNodes 0) =
      Assignment [(''node-4'', 4), (''node-6'', 6), (''node-2'', 2)]"
    by code_simp
  show ?thesis
    using evaluateSchedule_all_or_nothing
        [of "scenarioRequest\<lparr>requestedReplicas := 12\<rparr>" "scenarioNodes 0"]
      evaluateSchedule_all_or_nothing
        [of "scenarioRequest\<lparr>requestedReplicas := 13\<rparr>" "scenarioNodes 0"]
      cap run
    by (simp add: scenarioRequest_def)
qed

text \<open>
  The other scenario of the specification: 5 replicas against 4 replica slots in all is
  unsatisfiable, not a partial assignment of 4 out of 5.
\<close>

lemma five_replicas_on_four_slots:
  "evaluateSchedule \<lparr>requestId = 2, image = ''w'', requestedReplicas = 5\<rparr>
     [\<lparr>nodeId = ''a'', capacity = 3, load = 0, priority = 0\<rparr>,
      \<lparr>nodeId = ''b'', capacity = 1, load = 0, priority = 0\<rparr>] = UNSATISFIABLE"
  by code_simp

subsection \<open>The scenario with capacities 4, 6 and 2\<close>

text \<open>
  Claim C6, as stated, fails: with every node idle (the equal starting load 0) all load
  ratios are 0, the first replica raises the ratio of the node that takes it, and the
  next two replicas go to the two nodes still at ratio 0. Each node gets one replica.
\<close>

theorem scenario_idle_counterexample:
  "evaluateSchedule scenarioRequest (scenarioNodes 0) =
     Assignment [(''node-4'', 1), (''node-6'', 1), (''node-2'', 1)] \<and>
   evaluateSchedule scenarioRequest (scenarioNodes 0) \<noteq>
     Assignment [(''node-4'', 1), (''node-6'', 2), (''node-2'', 0)]"
proof -
  have "evaluateSchedule scenarioRequest (scenarioNodes 0) =
      Assignment [(''node-4'', 1), (''node-6'', 1), (''node-2'', 1)]"
    by code_simp
  then show ?thesis by simp
qed

text \<open>
  Claim C6, amended. Under the least-loaded-first rule, with one load unit per replica,
  a request for 3 replicas against the three nodes of capacities 4, 6 and 2 yields
  exactly two replicas on the node of capacity 6, one on the node of capacity 4 and none
  on the node of capacity 2 whenever the equal starting load is 1, 2, 3 or 4 units.
\<close>

theorem scenario_distribution:
  "1 \<le> l \<and> l \<le> 4 \<Longrightarrow>
   evaluateSchedule scenarioRequest (scenarioNodes l) =
     Assignment [(''node-4'', 1), (''node-6'', 2), (''node-2'', 0)]"
proof -
  assume "1 \<le> l \<and> l \<le> 4"
  then consider "l = 1" | "l = 2" | "l = 3" | "l = 4" by linarith
  then show ?thesis
  proof cases
    case 1
    show ?thesis unfolding 1 by code_simp
  next
    case 2
    show ?thesis unfolding 2 by code_simp
  next
    case 3
    show ?thesis unfolding 3 by code_simp
  next
    case 4
    show ?thesis unfolding 4 by code_simp
  qed
qed

theorem scenario_distribution_witness:
  "evaluateSchedule scenarioRequest (scenarioNodes 1) =
     Assignment [(''node-4'', 1), (''node-6'', 2), (''node-2'', 0)]"
  using scenario_distribution [of 1] by simp

text \<open>From a starting load of 5 units on, the node of capacity 6 takes all three replicas.\<close>

lemma scenario_load_5:
  "evaluateSchedule scenarioRequest (scenarioNodes 5) =
     Assignment [(''node-4'', 0), (''node-6'', 3), (''node-2'', 0)]"
  by code_simp

subsection \<open>The per-node limit\<close>

text \<open>
  An assignment names the nodes in the order of their records and gives no node more
  replicas than its advertised capacity.
\<close>

lemma assignOne_within_limits:
  assumes "i < length slots" and "belowLimit (slots ! i)"
    and "\<forall>sl \<in> set slots. snd sl \<le> capacity (fst sl)"
  shows "\<forall>sl \<in> set (assignOne slots i). snd sl \<le> capacity (fst sl)"
proof
  fix sl
  assume "sl \<in> set (assignOne slots i)"
  then have "sl \<in> insert (fst (slots ! i), Suc (snd (slots ! i))) (set slots)"
    unfolding assignOne_def using set_update_subset_insert by fastforce
  with assms(2,3) show "snd sl \<le> capacity (fst sl)"
    by (auto simp: belowLimit_def)
qed

lemma place_within_limits:
  "place r slots = Some slots' \<Longrightarrow> \<forall>sl \<in> set slots. snd sl \<le> capacity (fst sl) \<Longrightarrow>
   \<forall>sl \<in> set slots'. snd sl \<le> capacity (fst sl)"
proof (induction r arbitrary: slots)
  case 0
  then show ?case by simp
next
  case (Suc r)
  from Suc.prems(1) obtain i where i: "selectNode slots = Some i"
    and rest: "place r (assignOne slots i) = Some slots'"
    by (auto split: option.splits)
  from i have "i < length slots" and "belowLimit (slots ! i)"
    using selectNode_Some by blast+
  then have "\<forall>sl \<in> set (assignOne slots i). snd sl \<le> capacity (fst sl)"
    using Suc.prems(2) by (rule assignOne_within_limits)
  with rest show ?case by (rule Suc.IH)
qed

lemma evaluateSchedule_within_capacity:
  assumes "evaluateSchedule request records = Assignment a"
  shows "map fst a = map nodeId records \<and>
         (\<forall>j < length records. snd (a ! j) \<le> capacity (records ! j))"
proof -
  from assms obtain slots where pl: "place (requestedReplicas request) (map (\<lambda>n. (n, 0)) records) = Some slots"
    and a: "a = map (\<lambda>sl. (nodeId (fst sl), snd sl)) slots"
    by (auto simp: evaluateSchedule_def split: option.splits)
  from place_result [OF pl] have nodes: "map fst slots = records" by (simp add: comp_def)
  then have len: "length slots = length records" by (metis length_map)
  have "\<forall>sl \<in> set slots. snd sl \<le> capacity (fst sl)"
    by (rule place_within_limits [OF pl]) simp
  then have lim: "\<forall>j < length slots. snd (slots ! j) \<le> capacity (fst (slots ! j))"
    by (simp add: all_set_conv_all_nth)
  have "\<And>j. j < length records \<Longrightarrow> fst (slots ! j) = records ! j"
    using nodes len by (metis nth_map)
  with lim len have "\<forall>j < length records. snd (a ! j) \<le> capacity (records ! j)"
    by (simp add: a)
  moreover have "map fst a = map nodeId (map fst slots)"
    by (simp add: a comp_def)
  then have "map fst a = map nodeId records" by (simp only: nodes)
  ultimately show ?thesis by simp
qed

section \<open>Facts about anchoring\<close>

lemma anchorDeployment_again:
  "anchorDeployment h (snd (anchorDeployment h ledger)) = (False, snd (anchorDeployment h ledger))"
  by (simp add: anchorDeployment_def)

lemma anchorDeployment_count:
  "count_list (snd (anchorDeployment h ledger)) h = max 1 (count_list ledger h)"
  by (auto simp: anchorDeployment_def count_list_0_iff max_def Suc_le_eq)

lemma anchorDeployment_present: "h \<in> set (snd (anchorDeployment h ledger))"
  by (simp add: anchorDeployment_def)

lemma anchorWithRetries_present:
  "h \<in> set ledger \<Longrightarrow> snd (anchorWithRetries h attempts ledger) = ledger"
  by (induction h attempts ledger rule: anchorWithRetries.induct)
     (simp_all add: anchorDeployment_def)

lemma anchorWithRetries_ledger:
  "snd (anchorWithRetries h attempts ledger) =
     (if reachedLedger attempts then snd (anchorDeployment h ledger) else ledger)"
proof (induction h attempts ledger rule: anchorWithRetries.induct)
  case (3 h attempts ledger)
  show ?case
    by (simp add: reachedLedger_def anchorWithRetries_present anchorDeployment_present)
qed (simp_all add: reachedLedger_def)

text \<open>
  Claim C2. Anchoring is idempotent. The contract answers a commitment it already holds
  with a no-op: the ledger is unchanged and no record is added. Hence, for every
  assignment, hash function and ledger, and whatever the attempts of the two runs do:
  once a run of \<open>anchorAssignment\<close> has reached the ledger, anchoring the same
  assignment again leaves the ledger as it is; and when the commitment was not on the
  ledger before, it is there exactly once after the two runs, provided one of them
  reached the ledger.
\<close>

theorem anchoring_idempotent:
  "anchorDeployment h (snd (anchorDeployment h ledger)) =
     (False, snd (anchorDeployment h ledger)) \<and>
   (reachedLedger attempts1 \<longrightarrow>
      snd (anchorAssignment hashOf attempts2 a (snd (anchorAssignment hashOf attempts1 a ledger))) =
        snd (anchorAssignment hashOf attempts1 a ledger)) \<and>
   (commitmentOf hashOf a \<notin> set ledger \<and> (reachedLedger attempts1 \<or> reachedLedger attempts2) \<longrightarrow>
      count_list
        (snd (anchorAssignment hashOf attempts2 a (snd (anchorAssignment hashOf attempts1 a ledger))))
        (commitmentOf hashOf a) = 1)"
proof (intro conjI impI)
  show "anchorDeployment h (snd (anchorDeployment h ledger)) =
     (False, snd (anchorDeployment h ledger))"
    by (rule anchorDeployment_again)
next
  assume "reachedLedger attempts1"
  then show "snd (anchorAssignment hashOf attempts2 a (snd (anchorAssignment hashOf attempts1 a ledger))) =
        snd (anchorAssignment hashOf attempts1 a ledger)"
    by (simp add: anchorAssignment_def anchorWithRetries_ledger anchorDeployment_again)
next
  assume "commitmentOf hashOf a \<notin> set ledger \<and> (reachedLedger attempts1 \<or> reachedLedger attempts2)"
  then have fresh: "count_list ledger (commitmentOf hashOf a) = 0"
    and reached: "reachedLedger attempts1 \<or> reachedLedger attempts2"
    by (simp_all add: count_list_0_iff)
  show "count_list
        (snd (anchorAssignment hashOf attempts2 a (snd (anchorAssignment hashOf attempts1 a ledger))))
        (commitmentOf hashOf a) = 1"
    using reached fresh
    by (auto simp: anchorAssignment_def anchorWithRetries_ledger anchorDeployment_again
        anchorDeployment_count)
qed

theorem anchoring_idempotent_witness:
  "snd (anchorAssignment sampleHash [Unreachable, ResponseLost, Acknowledged] sampleAssignment []) = [(1, 3)] \<and>
   anchorAssignment sampleHash [Acknowledged] sampleAssignment [(1, 3)] = (Inr (1, 3), [(1, 3)]) \<and>
   anchorDeployment (1 :: nat, 3 :: nat) [(1, 3)] = (False, [(1, 3)]) \<and>
   count_list [(1 :: nat, 3 :: nat)] (1, 3) = 1"
proof -
  have first: "anchorAssignment sampleHash [Unreachable, ResponseLost, Acknowledged] sampleAssignment [] =
      (Inr (1, 3), [(1, 3)])"
    by (simp add: anchorAssignment_def commitmentOf_def sampleHash_def sampleAssignment_def
        anchorDeployment_def)
  have reached: "reachedLedger [Unreachable, ResponseLost, Acknowledged]"
    by (simp add: reachedLedger_def)
  have h: "commitmentOf sampleHash sampleAssignment = (1, 3)"
    by (simp add: commitmentOf_def sampleHash_def sampleAssignment_def)
  show ?thesis
    using anchoring_idempotent
      [of "(1 :: nat, 3 :: nat)" "[]" "[Unreachable, ResponseLost, Acknowledged]" sampleHash
          "[Acknowledged]" sampleAssignment]
      first reached h
    by (simp add: anchorAssignment_def anchorDeployment_def)
qed

end
